theory Spec2Isabelle
  imports Main
begin

section \<open>Constants of \<^verbatim>\<open>src/index.js\<close>\<close>

text \<open>Bucket and service name (lines 7-8).\<close>

definition bucketName :: string where
  "bucketName = ''ssfs-bucket''"

definition serviceName :: string where
  "serviceName = ''ssfs-ethan-oct16''"

section \<open>JavaScript numbers\<close>

text \<open>
  A JavaScript number is an IEEE 754 double. Every finite double is a whole multiple of the
  least positive one, \<open>2^-1074\<close>, so \<open>Finite k\<close> stands for the number \<open>k * 2^-1074\<close>, and
  the whole number \<open>n\<close> is \<open>whole n = Finite (n * scale)\<close>. The model has one zero: a stored
  \<^verbatim>\<open>-0\<close> is read as \<^verbatim>\<open>0\<close> (the two compare equal and print alike, and the handler
  never divides by a quota).
\<close>

datatype js_number = Finite int | PosInfinity | NegInfinity | NaN

definition min_exponent :: nat where
  "min_exponent = 1074"

definition scale :: int where
  "scale = 2 ^ min_exponent"

definition whole :: "int \<Rightarrow> js_number" where
  "whole n = Finite (n * scale)"

text \<open>
  A double has 53 significant bits and is below \<open>2^1024\<close>. \<open>shift53 a\<close> is the number of
  low bits of \<open>a\<close> that do not fit, and \<open>is_double k\<close> says that \<open>Finite k\<close> is a double: the bits
  that do not fit are zero.
\<close>

definition mantissa_limit :: nat where
  "mantissa_limit = 2 ^ 53"

definition overflow_limit :: nat where
  "overflow_limit = 2 ^ 1024 * 2 ^ min_exponent"

function shift53 :: "nat \<Rightarrow> nat" where
  "shift53 a = (if a < mantissa_limit then 0 else Suc (shift53 (a div 2)))"
  by pat_completeness auto
termination
  by (relation "measure (\<lambda>a. a)") (auto simp: mantissa_limit_def)

declare shift53.simps [simp del]

definition is_double :: "int \<Rightarrow> bool" where
  "is_double k \<longleftrightarrow> nat \<bar>k\<bar> mod 2 ^ shift53 (nat \<bar>k\<bar>) = 0 \<and> nat \<bar>k\<bar> < overflow_limit"

text \<open>
  Every arithmetic operation returns the double nearest to the exact result, ties going to
  the even mantissa, and infinity from \<open>2^1024\<close> on. \<open>round_ratio p q\<close> rounds the magnitude
  \<open>p / q\<close> (in units of \<open>2^-1074\<close>); \<open>rounded\<close> puts the sign back.
\<close>

definition round_ratio :: "nat \<Rightarrow> nat \<Rightarrow> nat" where
  "round_ratio p q =
     (let s = shift53 (p div q); d = q * 2 ^ s; m = p div d; r = p mod d
      in (if d < 2 * r \<or> (2 * r = d \<and> odd m) then m + 1 else m) * 2 ^ s)"

definition infinity :: "bool \<Rightarrow> js_number" where
  "infinity neg = (if neg then NegInfinity else PosInfinity)"

definition rounded :: "bool \<Rightarrow> nat \<Rightarrow> nat \<Rightarrow> js_number" where
  "rounded neg p q =
     (let a = round_ratio p q
      in if overflow_limit \<le> a then infinity neg
         else Finite (if neg then - int a else int a))"

fun negative :: "js_number \<Rightarrow> bool" where
  "negative (Finite a) = (a < 0)"
| "negative NegInfinity = True"
| "negative _ = False"

text \<open>\<^verbatim>\<open>x > y\<close>, \<^verbatim>\<open>x >= y\<close>, \<^verbatim>\<open>x - y\<close>, \<^verbatim>\<open>x * y\<close> and \<^verbatim>\<open>x / y\<close> on numbers.\<close>

fun js_gt :: "js_number \<Rightarrow> js_number \<Rightarrow> bool" where
  "js_gt (Finite a) (Finite b) = (b < a)"
| "js_gt PosInfinity (Finite _) = True"
| "js_gt PosInfinity NegInfinity = True"
| "js_gt (Finite _) NegInfinity = True"
| "js_gt _ _ = False"

definition js_ge :: "js_number \<Rightarrow> js_number \<Rightarrow> bool" where
  "js_ge x y \<longleftrightarrow> js_gt x y \<or> (x = y \<and> x \<noteq> NaN)"

fun js_minus :: "js_number \<Rightarrow> js_number \<Rightarrow> js_number" where
  "js_minus (Finite a) (Finite b) = rounded (a < b) (nat \<bar>a - b\<bar>) 1"
| "js_minus NaN _ = NaN"
| "js_minus _ NaN = NaN"
| "js_minus PosInfinity PosInfinity = NaN"
| "js_minus NegInfinity NegInfinity = NaN"
| "js_minus PosInfinity _ = PosInfinity"
| "js_minus NegInfinity _ = NegInfinity"
| "js_minus (Finite _) PosInfinity = NegInfinity"
| "js_minus (Finite _) NegInfinity = PosInfinity"

fun js_times :: "js_number \<Rightarrow> js_number \<Rightarrow> js_number" where
  "js_times (Finite a) (Finite b) = rounded ((a < 0) \<noteq> (b < 0)) (nat \<bar>a * b\<bar>) (nat scale)"
| "js_times NaN _ = NaN"
| "js_times _ NaN = NaN"
| "js_times x y =
     (if x = Finite 0 \<or> y = Finite 0 then NaN else infinity (negative x \<noteq> negative y))"

fun js_divide :: "js_number \<Rightarrow> js_number \<Rightarrow> js_number" where
  "js_divide (Finite a) (Finite b) =
     (if b = 0 then (if a = 0 then NaN else infinity (a < 0))
      else rounded ((a < 0) \<noteq> (b < 0)) (nat (\<bar>a\<bar> * scale)) (nat \<bar>b\<bar>))"
| "js_divide NaN _ = NaN"
| "js_divide _ NaN = NaN"
| "js_divide (Finite _) _ = Finite 0"
| "js_divide x (Finite b) = infinity (negative x \<noteq> (b < 0))"
| "js_divide _ _ = NaN"

text \<open>Credit cost per lead (line 6).\<close>

definition serviceCostPerLead :: js_number where
  "serviceCostPerLead = whole 2"

section \<open>Data\<close>

text \<open>
  A document of the Firestore collection \<^verbatim>\<open>subscriptions\<close>. The two fields the code reads
  are \<^verbatim>\<open>ssfs_account_api_key\<close> (a string, \<open>None\<close> when the field is undefined)
  and \<^verbatim>\<open>quota\<close>, a number: whole or not, of any size, infinite or \<^verbatim>\<open>NaN\<close>.
\<close>

record subscription_doc =
  ssfs_account_api_key :: "string option"
  quota :: js_number

text \<open>
  The object \<^verbatim>\<open>checkQuota\<close> returns. A field the object literal does not mention is
  undefined in JavaScript: \<open>None\<close>.
\<close>

record quota_decision =
  message :: string
  allowed :: "bool option"
  usedQuota :: "js_number option"
  remainingQuota :: "js_number option"

text \<open>What \<^verbatim>\<open>getUserApiKey\<close> returns: the stored string, \<^verbatim>\<open>false\<close>, or a message object.\<close>

datatype js_value = JsString string | JsFalse | JsObject quota_decision

datatype js_error = TypeError | FirestoreError | StorageError | AxiosError | HeadersSentError

text \<open>The inbound request: the \<^verbatim>\<open>x-api-key\<close> header and the JSON body.\<close>

type_synonym json = string

record subscription =
  munchkinId :: "string option"

record request_context =
  subscription :: "subscription option"

record request_body =
  token :: "json option"
  apiCallBackKey :: "json option"
  campaignId :: "json option"
  callbackUrl :: "json option"
  body_context :: "request_context option"
  objectData :: "json list option"

record request =
  x_api_key :: "string option"
  body :: request_body

record notification =
  payload_filename :: string
  payload_bucketName :: string
  payload_path :: string

datatype response_body = Json_error string | Text string

text \<open>
  Everything the handler does to the outside, in the order it does it. A Firestore, bucket
  or axios call is recorded when it is issued, whether or not it then fails. The
  \<^verbatim>\<open>logDebug\<close> calls print only when the debug switch is on and change nothing else;
  they are left out. An error no \<^verbatim>\<open>catch\<close> receives is recorded as an unhandled rejection.
\<close>

datatype event =
    FirestoreGet string
  | FirestoreUpdate string js_number
  | BucketSave string request_body
  | Respond nat response_body
  | AxiosPost string notification
  | ConsoleError js_error
  | UnhandledRejection js_error

text \<open>
  The state outside the process: the documents, the bucket's files, the response object of
  the request being served (\<open>sent\<close>), the number of external calls made so far and the
  events so far.
\<close>

record world =
  docs :: "string \<Rightarrow> subscription_doc option"
  files :: "string \<Rightarrow> request_body option"
  sent :: "(nat \<times> response_body) option"
  calls :: nat
  trace :: "event list"

text \<open>
  What the code cannot decide: which external calls throw (\<open>fault k\<close> for the \<open>k\<close>-th call,
  counted from 0), what \<^verbatim>\<open>Date.now()\<close> returns, the configured callback URL
  (\<^verbatim>\<open>process.env.SSFS_SERVICE_CALLBACK_URL\<close>), and how the JavaScript runtime prints a
  number inside a template literal (\<open>number_to_string\<close>: the shortest digits that read back
  as the same double, with an exponent from \<open>10^21\<close> on). The theorems hold for every
  such function.
\<close>

record env =
  fault :: "nat \<Rightarrow> bool"
  now :: nat
  targetUrl :: string
  number_to_string :: "js_number \<Rightarrow> string"

section \<open>Whole numbers in template literals\<close>

text \<open>
  The length of an array (below \<open>2^32\<close>) and the milliseconds of \<^verbatim>\<open>Date.now()\<close> (at most
  \<open>8.64 * 10^15\<close>) are whole numbers that print as their decimal digits.
\<close>

definition digit_char :: "nat \<Rightarrow> char" where
  "digit_char d = ''0123456789'' ! d"

function nat_to_string :: "nat \<Rightarrow> string" where
  "nat_to_string n =
     (if n < 10 then [digit_char n] else nat_to_string (n div 10) @ [digit_char (n mod 10)])"
  by pat_completeness auto
termination
  by (relation "measure (\<lambda>n. n)") auto

declare nat_to_string.simps [simp del]

definition int_to_string :: "int \<Rightarrow> string" where
  "int_to_string i = (if i < 0 then ''-'' @ nat_to_string (nat (- i)) else nat_to_string (nat i))"

text \<open>Reading decimal digits back.\<close>

definition digit_value :: "char \<Rightarrow> nat" where
  "digit_value c = of_char c - 48"

definition decimal_value :: "string \<Rightarrow> nat" where
  "decimal_value s = foldl (\<lambda>a c. 10 * a + digit_value c) 0 s"

section \<open>The Firestore document \<^verbatim>\<open>subscriptions/ID\<close>\<close>

definition issue :: "event \<Rightarrow> world \<Rightarrow> world" where
  "issue e w = w\<lparr>calls := Suc (calls w), trace := trace w @ [e]\<rparr>"

definition firestore_get ::
  "env \<Rightarrow> world \<Rightarrow> string \<Rightarrow> (js_error + subscription_doc option) \<times> world" where
  "firestore_get ev w sid =
     (if fault ev (calls w) then (Inl FirestoreError, issue (FirestoreGet sid) w)
      else (Inr (docs w sid), issue (FirestoreGet sid) w))"

text \<open>
  \<^verbatim>\<open>update({ quota: q })\<close> replaces the field of an existing document; Firestore rejects
  the update of a missing one. A call that throws writes nothing.
\<close>

definition firestore_update ::
  "env \<Rightarrow> world \<Rightarrow> string \<Rightarrow> js_number \<Rightarrow> (js_error + unit) \<times> world" where
  "firestore_update ev w sid q =
     (if fault ev (calls w) then (Inl FirestoreError, issue (FirestoreUpdate sid q) w)
      else (case docs w sid of
              None \<Rightarrow> (Inl FirestoreError, issue (FirestoreUpdate sid q) w)
            | Some d \<Rightarrow>
                (Inr (), (issue (FirestoreUpdate sid q) w)\<lparr>docs := (docs w)(sid \<mapsto> d\<lparr>quota := q\<rparr>)\<rparr>)))"

section \<open>\<^verbatim>\<open>checkQuota\<close> (lines 125-170)\<close>

definition subscriptionId_required :: quota_decision where
  "subscriptionId_required =
     \<lparr>message = ''subscriptionId is required'', allowed = None,
      usedQuota = None, remainingQuota = None\<rparr>"

definition at_least_one_object :: quota_decision where
  "at_least_one_object =
     \<lparr>message = ''At least one object is required'', allowed = Some False,
      usedQuota = None, remainingQuota = None\<rparr>"

definition id_not_found :: quota_decision where
  "id_not_found =
     \<lparr>message = ''ID not found'', allowed = Some False,
      usedQuota = None, remainingQuota = None\<rparr>"

definition success :: "js_number \<Rightarrow> js_number \<Rightarrow> quota_decision" where
  "success creditsNeeded updatedQuota =
     \<lparr>message = ''Success'', allowed = Some True,
      usedQuota = Some creditsNeeded, remainingQuota = Some updatedQuota\<rparr>"

text \<open>
  The message of lines 160 and 164. \<^verbatim>\<open>${data.quota / serviceCostPerLead}\<close> is the quotient
  as JavaScript computes it, printed by the runtime.
\<close>

definition quota_exceeded_message :: "env \<Rightarrow> int \<Rightarrow> js_number \<Rightarrow> string" where
  "quota_exceeded_message ev objectCount q =
     ''Quota exceeded, you'' @ [CHR 0x27] @ ''ve requested '' @ int_to_string objectCount
       @ '' leads to be processed, only ''
       @ number_to_string ev (js_divide q serviceCostPerLead)
       @ '' leads can be processed based on your remaining credits quota, additional subscription credits are required. Please renew your subscription.''"

definition quota_exceeded :: "env \<Rightarrow> int \<Rightarrow> js_number \<Rightarrow> quota_decision" where
  "quota_exceeded ev objectCount q =
     \<lparr>message = quota_exceeded_message ev objectCount q, allowed = Some False,
      usedQuota = None, remainingQuota = Some q\<rparr>"

definition internal_server_error :: quota_decision where
  "internal_server_error =
     \<lparr>message = ''Internal Server Error'', allowed = Some False,
      usedQuota = None, remainingQuota = None\<rparr>"

text \<open>
  Lines 144-165, what runs once \<^verbatim>\<open>await quotaDoc.get()\<close> has delivered the document
  snapshot \<open>doc\<close>: the decision is taken on the snapshot, and the write is a plain
  \<^verbatim>\<open>update\<close> of the value computed from it. \<open>objectCount\<close> is the length of the array, a
  whole number.
\<close>

definition checkQuota_decide ::
  "env \<Rightarrow> world \<Rightarrow> string \<Rightarrow> int \<Rightarrow> subscription_doc option
     \<Rightarrow> (js_error + quota_decision) \<times> world" where
  "checkQuota_decide ev w sid objectCount doc =
     (case doc of
        None \<Rightarrow> (Inr id_not_found, w)
      | Some data \<Rightarrow>
          (let creditsNeeded = js_times (whole objectCount) serviceCostPerLead in
           if js_gt (quota data) creditsNeeded then
             (let updatedQuota = js_minus (quota data) creditsNeeded in
              case firestore_update ev w sid updatedQuota of
                (Inl e, w') \<Rightarrow> (Inl e, w')
              | (Inr _, w') \<Rightarrow> (Inr (success creditsNeeded updatedQuota), w'))
           else (Inr (quota_exceeded ev objectCount (quota data)), w)))"

text \<open>
  The body of the \<^verbatim>\<open>try\<close> block (lines 134-165). \<^verbatim>\<open>objectData.length\<close> throws a
  TypeError when \<^verbatim>\<open>objectData\<close> is undefined.
\<close>

definition checkQuota_try ::
  "env \<Rightarrow> world \<Rightarrow> string \<Rightarrow> json list option \<Rightarrow> (js_error + quota_decision) \<times> world" where
  "checkQuota_try ev w sid od =
     (case od of
        None \<Rightarrow> (Inl TypeError, w)
      | Some xs \<Rightarrow>
          (let objectCount = int (length xs) in
           if objectCount < 1 then (Inr at_least_one_object, w)
           else (case firestore_get ev w sid of
                   (Inl e, w') \<Rightarrow> (Inl e, w')
                 | (Inr doc, w') \<Rightarrow> checkQuota_decide ev w' sid objectCount doc)))"

text \<open>\<^verbatim>\<open>!subscriptionId\<close>: undefined and the empty string are falsy.\<close>

definition falsy :: "string option \<Rightarrow> bool" where
  "falsy s = (case s of None \<Rightarrow> True | Some x \<Rightarrow> x = [])"

text \<open>The \<^verbatim>\<open>catch\<close> block (lines 166-169): whatever the \<^verbatim>\<open>try\<close> block threw becomes a decision.\<close>

definition catch_internal ::
  "(js_error + quota_decision) \<times> world \<Rightarrow> (js_error + quota_decision) \<times> world" where
  "catch_internal r =
     (case r of (Inl error, w') \<Rightarrow> (Inr internal_server_error, w') | (Inr d, w') \<Rightarrow> (Inr d, w'))"

definition checkQuota ::
  "env \<Rightarrow> world \<Rightarrow> string option \<Rightarrow> json list option
     \<Rightarrow> (js_error + quota_decision) \<times> world" where
  "checkQuota ev w subscriptionId od =
     (if falsy subscriptionId then (Inr subscriptionId_required, w)
      else catch_internal (checkQuota_try ev w (the subscriptionId) od))"

section \<open>\<^verbatim>\<open>getUserApiKey\<close> (lines 178-209)\<close>

definition getUserApiKey ::
  "env \<Rightarrow> world \<Rightarrow> string option \<Rightarrow> (js_error + js_value) \<times> world" where
  "getUserApiKey ev w subscriptionId =
     (if falsy subscriptionId then (Inr (JsObject subscriptionId_required), w)
      else (case firestore_get ev w (the subscriptionId) of
              (Inl error, w') \<Rightarrow> (Inr JsFalse, w')
            | (Inr None, w') \<Rightarrow> (Inr (JsObject id_not_found), w')
            | (Inr (Some data), w') \<Rightarrow>
                (case ssfs_account_api_key data of
                   Some k \<Rightarrow> (Inr (JsString k), w')
                 | None \<Rightarrow> (Inr JsFalse, w'))))"

section \<open>The response object, the bucket and axios\<close>

text \<open>
  \<^verbatim>\<open>res.status(c).send(b)\<close> and \<^verbatim>\<open>res.status(c).json(b)\<close>: the first one answers the
  caller; once a response is out, Express throws and the caller sees nothing new.
\<close>

definition res_send :: "world \<Rightarrow> nat \<Rightarrow> response_body \<Rightarrow> (js_error + unit) \<times> world" where
  "res_send w code b =
     (case sent w of
        None \<Rightarrow> (Inr (), w\<lparr>sent := Some (code, b), trace := trace w @ [Respond code b]\<rparr>)
      | Some _ \<Rightarrow> (Inl HeadersSentError, w))"

text \<open>
  \<^verbatim>\<open>file.save(JSON.stringify(jsonData))\<close>: the bucket holds the body under the file name
  (the serialisation to JSON text is not modelled).
\<close>

definition bucket_save ::
  "env \<Rightarrow> world \<Rightarrow> string \<Rightarrow> request_body \<Rightarrow> (js_error + unit) \<times> world" where
  "bucket_save ev w name jsonData =
     (if fault ev (calls w) then (Inl StorageError, issue (BucketSave name jsonData) w)
      else (Inr (), (issue (BucketSave name jsonData) w)\<lparr>files := (files w)(name \<mapsto> jsonData)\<rparr>))"

definition axios_post ::
  "env \<Rightarrow> world \<Rightarrow> string \<Rightarrow> notification \<Rightarrow> (js_error + unit) \<times> world" where
  "axios_post ev w url payload =
     (if fault ev (calls w) then (Inl AxiosError, issue (AxiosPost url payload) w)
      else (Inr (), issue (AxiosPost url payload) w))"

section \<open>\<^verbatim>\<open>authMiddleware\<close> and \<^verbatim>\<open>submitAsyncAction\<close> (lines 33-116)\<close>

text \<open>
  \<^verbatim>\<open>context.subscription.munchkinId\<close> (lines 39 and 64): a TypeError when \<^verbatim>\<open>context\<close> or
  \<^verbatim>\<open>context.subscription\<close> is undefined; undefined when only the last field is missing.
\<close>

definition context_subscription_munchkinId :: "request \<Rightarrow> js_error + string option" where
  "context_subscription_munchkinId req =
     (case body_context (body req) of
        None \<Rightarrow> Inl TypeError
      | Some c \<Rightarrow> (case subscription c of None \<Rightarrow> Inl TypeError | Some s \<Rightarrow> Inr (munchkinId s)))"

text \<open>A value inside a template literal.\<close>

definition template_string :: "js_value \<Rightarrow> string" where
  "template_string v =
     (case v of JsString s \<Rightarrow> s | JsFalse \<Rightarrow> ''false'' | JsObject _ \<Rightarrow> ''[object Object]'')"

definition template_id :: "string option \<Rightarrow> string" where
  "template_id s = (case s of None \<Rightarrow> ''undefined'' | Some x \<Rightarrow> x)"

text \<open>
  Line 52 is \<^verbatim>\<open>next();\<close>: the promise of the callback is neither awaited nor returned.
  The callback still runs to its end, and nothing else runs after \<^verbatim>\<open>authMiddleware\<close>
  returns, so its effects follow in order; but an error it throws reaches no
  \<^verbatim>\<open>catch\<close>: it is an unhandled rejection.
\<close>

definition authMiddleware ::
  "env \<Rightarrow> world \<Rightarrow> request \<Rightarrow> (world \<Rightarrow> (js_error + unit) \<times> world)
     \<Rightarrow> (js_error + unit) \<times> world" where
  "authMiddleware ev w req next =
     (let authHeader = x_api_key req in
      case context_subscription_munchkinId req of
        Inl e \<Rightarrow> (Inl e, w)
      | Inr mid \<Rightarrow>
          (case getUserApiKey ev w mid of
             (Inl e, w1) \<Rightarrow> (Inl e, w1)
           | (Inr userApiKey, w1) \<Rightarrow>
               if falsy authHeader then
                 res_send w1 401 (Json_error ''Authorization header missing'')
               else if the authHeader \<noteq> template_string userApiKey then
                 res_send w1 401 (Json_error ''Invalid credentials'')
               else (case next w1 of
                       (Inl e, w2) \<Rightarrow> (Inr (), w2\<lparr>trace := trace w2 @ [UnhandledRejection e]\<rparr>)
                     | (Inr _, w2) \<Rightarrow> (Inr (), w2))))"

text \<open>The callback passed as \<^verbatim>\<open>next\<close> (lines 58-111).\<close>

definition submitAsyncAction_next :: "env \<Rightarrow> request \<Rightarrow> world \<Rightarrow> (js_error + unit) \<times> world" where
  "submitAsyncAction_next ev req w =
     (let jsonData = body req in
      case context_subscription_munchkinId req of
        Inl e \<Rightarrow> (Inl e, w)
      | Inr mid \<Rightarrow>
          (case checkQuota ev w mid (objectData (body req)) of
             (Inl e, w1) \<Rightarrow> (Inl e, w1)
           | (Inr q, w1) \<Rightarrow>
               if allowed q \<noteq> Some True then res_send w1 403 (Json_error (message q))
               else
                 (let name = serviceName @ ''/'' @ template_id mid @ ''/data-''
                               @ nat_to_string (now ev) @ ''.json'' in
                  case bucket_save ev w1 name jsonData of
                    (Inl e, w2) \<Rightarrow> (Inl e, w2)
                  | (Inr _, w2) \<Rightarrow>
                      (let payload = \<lparr>payload_filename = name, payload_bucketName = bucketName,
                                      payload_path = ''gs://'' @ bucketName @ ''/'' @ name\<rparr> in
                       case res_send w2 201 (Text ''Request accepted successfully'') of
                         (Inl e, w3) \<Rightarrow> (Inl e, w3)
                       | (Inr _, w3) \<Rightarrow> axios_post ev w3 (targetUrl ev) payload))))"

definition submitAsyncAction :: "env \<Rightarrow> world \<Rightarrow> request \<Rightarrow> (js_error + unit) \<times> world" where
  "submitAsyncAction ev w req =
     (case authMiddleware ev w req (submitAsyncAction_next ev req) of
        (Inl error, w1) \<Rightarrow>
          res_send (w1\<lparr>trace := trace w1 @ [ConsoleError error]\<rparr>) 500 (Text ''Internal Server Error'')
      | (Inr _, w1) \<Rightarrow> (Inr (), w1))"

section \<open>Two debits whose reads both come before either write\<close>

text \<open>
  \<^verbatim>\<open>checkQuota\<close> gives up control at \<^verbatim>\<open>await quotaDoc.get()\<close> and at
  \<^verbatim>\<open>await quotaDoc.update(...)\<close>. Two calls for a non-empty id and non-empty batches
  \<open>xs\<close> and \<open>ys\<close> (both pass the guards of lines 128 and 136) can therefore run as: read
  of the first, read of the second, then the rest of the first and the rest of the second,
  each on the snapshot it read.
\<close>

definition checkQuota_interleaved ::
  "env \<Rightarrow> world \<Rightarrow> string \<Rightarrow> json list \<Rightarrow> json list
     \<Rightarrow> (js_error + quota_decision) \<times> (js_error + quota_decision) \<times> world" where
  "checkQuota_interleaved ev w sid xs ys =
     (case firestore_get ev w sid of (r1, w1) \<Rightarrow>
      case firestore_get ev w1 sid of (r2, w2) \<Rightarrow>
      case catch_internal
             (case r1 of Inl e \<Rightarrow> (Inl e, w2)
              | Inr doc \<Rightarrow> checkQuota_decide ev w2 sid (int (length xs)) doc) of (d1, w3) \<Rightarrow>
      case catch_internal
             (case r2 of Inl e \<Rightarrow> (Inl e, w3)
              | Inr doc \<Rightarrow> checkQuota_decide ev w3 sid (int (length ys)) doc) of (d2, w4) \<Rightarrow>
      (d1, d2, w4))"

section \<open>What counts as a side effect, and sample inputs\<close>

text \<open>A quota debit, a storage write and a downstream notification.\<close>

fun side_effect :: "event \<Rightarrow> bool" where
  "side_effect (FirestoreUpdate _ _) = True"
| "side_effect (BucketSave _ _) = True"
| "side_effect (AxiosPost _ _) = True"
| "side_effect _ = False"

text \<open>
  An environment in which exactly the external calls listed in \<open>ks\<close> throw, and a world
  that holds the one account \<^verbatim>\<open>M1\<close>, with a whole number of credits, and a fresh response
  object. The samples print whole numbers below \<open>2^53\<close> and halves below \<open>2^52\<close> only,
  which JavaScript prints as their decimal digits (\<^verbatim>\<open>2\<close>, \<^verbatim>\<open>-7\<close>, \<^verbatim>\<open>2.5\<close>);
  \<open>sample_number_to_string\<close> does that, prints the three numbers that are not finite as
  JavaScript does, and is not meant for any other number.
\<close>

definition sample_number_to_string :: "js_number \<Rightarrow> string" where
  "sample_number_to_string x =
     (case x of
        Finite k \<Rightarrow>
          (if k mod scale = 0 \<and> \<bar>k div scale\<bar> < 2 ^ 53 then int_to_string (k div scale)
           else if k mod (scale div 2) = 0 \<and> \<bar>k div scale\<bar> < 2 ^ 52 then
             (if k < 0 then ''-'' else []) @ nat_to_string (nat (\<bar>k\<bar> div scale)) @ ''.5''
           else [])
      | PosInfinity \<Rightarrow> ''Infinity''
      | NegInfinity \<Rightarrow> ''-Infinity''
      | NaN \<Rightarrow> ''NaN'')"

definition sample_env :: "nat list \<Rightarrow> env" where
  "sample_env ks =
     \<lparr>fault = (\<lambda>k. k \<in> set ks), now = 1729036800000,
      targetUrl = ''https://service.example/callback'',
      number_to_string = sample_number_to_string\<rparr>"

definition sample_world :: "string option \<Rightarrow> int \<Rightarrow> world" where
  "sample_world k q =
     \<lparr>docs = [''M1'' \<mapsto> \<lparr>ssfs_account_api_key = k, quota = whole q\<rparr>], files = Map.empty,
      sent = None, calls = 0, trace = []\<rparr>"

definition sample_request :: "string option \<Rightarrow> string \<Rightarrow> json list \<Rightarrow> request" where
  "sample_request k mid xs =
     \<lparr>x_api_key = k,
      body = \<lparr>token = None, apiCallBackKey = None, campaignId = None, callbackUrl = None,
              body_context = Some \<lparr>subscription = Some \<lparr>munchkinId = Some mid\<rparr>\<rparr>,
              objectData = Some xs\<rparr>\<rparr>"

definition sample_request_no_subscription :: "string option \<Rightarrow> request" where
  "sample_request_no_subscription k =
     \<lparr>x_api_key = k,
      body = \<lparr>token = None, apiCallBackKey = None, campaignId = None, callbackUrl = None,
              body_context = Some \<lparr>subscription = None\<rparr>,
              objectData = Some [''lead'']\<rparr>\<rparr>"

section \<open>Rounding to a double\<close>

lemma mantissa_limit_ge: "2 \<le> mantissa_limit"
proof -
  have "(2::nat) ^ 1 \<le> 2 ^ 53" by (rule power_increasing) simp_all
  then show ?thesis by (simp only: mantissa_limit_def power_one_right)
qed

lemma shift53_small: "a < mantissa_limit \<Longrightarrow> shift53 a = 0"
  by (simp add: shift53.simps)

lemma shift53_large: "mantissa_limit \<le> a \<Longrightarrow> shift53 a = Suc (shift53 (a div 2))"
  by (subst shift53.simps) simp

lemma shift53_mult_le: "m < mantissa_limit \<Longrightarrow> shift53 (m * 2 ^ j) \<le> j"
proof (induction j)
  case 0
  then show ?case by (simp add: shift53_small)
next
  case (Suc j)
  show ?case
  proof (cases "m * 2 ^ Suc j < mantissa_limit")
    case True
    then show ?thesis by (simp add: shift53_small)
  next
    case False
    then have "shift53 (m * 2 ^ Suc j) = Suc (shift53 (m * 2 ^ Suc j div 2))"
      by (intro shift53_large) simp
    also have "m * 2 ^ Suc j div 2 = m * 2 ^ j" by simp
    finally show ?thesis using Suc by simp
  qed
qed

lemma shift53_div_less: "a div 2 ^ shift53 a < mantissa_limit"
proof (induction a rule: shift53.induct)
  case (1 a)
  show ?case
  proof (cases "a < mantissa_limit")
    case True
    then show ?thesis by (simp add: shift53_small)
  next
    case False
    then have s: "shift53 a = Suc (shift53 (a div 2))" by (intro shift53_large) simp
    have "a div 2 ^ Suc (shift53 (a div 2)) = (a div 2) div 2 ^ shift53 (a div 2)"
      by (simp add: div_mult2_eq)
    with 1 False s show ?thesis by simp
  qed
qed

lemma shift53_power_le: "0 < a \<Longrightarrow> 2 ^ shift53 a \<le> a"
proof (induction a rule: shift53.induct)
  case (1 a)
  show ?case
  proof (cases "a < mantissa_limit")
    case True
    with 1 show ?thesis by (simp add: shift53_small)
  next
    case False
    then have s: "shift53 a = Suc (shift53 (a div 2))" by (intro shift53_large) simp
    from False mantissa_limit_ge have "0 < a div 2" by simp
    with 1 False have "2 ^ shift53 (a div 2) \<le> a div 2" by simp
    then have "2 * 2 ^ shift53 (a div 2) \<le> 2 * (a div 2)" by simp
    also have "\<dots> \<le> a" by simp
    finally show ?thesis using s by simp
  qed
qed


text \<open>A magnitude that has at most 53 significant bits is its own rounding.\<close>

lemma round_ratio_exact:
  assumes "0 < q" and "m < mantissa_limit"
  shows "round_ratio (m * 2 ^ j * q) q = m * 2 ^ j"
proof -
  define s where "s = shift53 (m * 2 ^ j)"
  from assms(2) have "s \<le> j" unfolding s_def by (rule shift53_mult_le)
  then obtain i where j: "j = s + i" by (auto simp: le_iff_add)
  have p: "m * 2 ^ j * q = (m * 2 ^ i) * (q * 2 ^ s)"
    by (simp add: j power_add)
  from assms(1) have d: "0 < q * 2 ^ s" by simp
  have "m * 2 ^ j * q div q = m * 2 ^ j" using assms(1) by simp
  then have "round_ratio (m * 2 ^ j * q) q =
      (let d = q * 2 ^ s; m' = (m * 2 ^ i) * (q * 2 ^ s) div d; r = (m * 2 ^ i) * (q * 2 ^ s) mod d
       in (if d < 2 * r \<or> (2 * r = d \<and> odd m') then m' + 1 else m') * 2 ^ s)"
    by (simp add: round_ratio_def s_def [symmetric] p)
  also have "\<dots> = (m * 2 ^ i) * 2 ^ s"
    using d by (simp add: Let_def)
  also have "\<dots> = m * 2 ^ j" by (simp add: j power_add)
  finally show ?thesis .
qed


lemma round_ratio_positive: "0 < p \<Longrightarrow> 0 < round_ratio p 1"
proof -
  assume "0 < p"
  then have "2 ^ shift53 p \<le> p" by (rule shift53_power_le)
  then have "0 < p div 2 ^ shift53 p" by (simp add: div_greater_zero_iff)
  then show ?thesis by (simp add: round_ratio_def Let_def)
qed

lemma rounded_exact:
  assumes "0 < q" and "m < mantissa_limit" and "m * 2 ^ j < overflow_limit"
  shows "rounded neg (m * 2 ^ j * q) q = Finite (if neg then - int (m * 2 ^ j) else int (m * 2 ^ j))"
  using round_ratio_exact [OF assms(1,2), of j] assms(3)
  by (simp add: rounded_def Let_def)

lemma rounded_exact_difference:
  assumes "m < mantissa_limit" and "m * 2 ^ j < overflow_limit"
  shows "rounded False (m * 2 ^ j * 1) 1 = Finite (int (m * 2 ^ j))"
  using rounded_exact [of 1 m j False] assms by simp

lemma below_overflow:
  assumes "a < mantissa_limit * 2 ^ Suc min_exponent"
  shows "a < overflow_limit"
proof -
  have "(2::nat) ^ 54 \<le> 2 ^ 1024" by (rule power_increasing) simp_all
  then have "(2::nat) ^ 54 * 2 ^ min_exponent \<le> 2 ^ 1024 * 2 ^ min_exponent"
    by (rule mult_right_mono) simp
  moreover have "mantissa_limit * 2 ^ Suc min_exponent = 2 ^ 54 * 2 ^ min_exponent"
  proof -
    have "(2::nat) ^ 54 = 2 ^ 53 * 2" by (simp only: power_Suc2 [symmetric]) simp
    then show ?thesis by (simp only: mantissa_limit_def power_Suc mult.assoc)
  qed
  ultimately show ?thesis using assms by (simp only: overflow_limit_def)
qed

lemma mantissa_scaled_below_overflow:
  assumes "m < mantissa_limit"
  shows "m * 2 ^ min_exponent < overflow_limit"
proof -
  from assms have "m * 2 ^ min_exponent < mantissa_limit * 2 ^ min_exponent" by simp
  also have "\<dots> \<le> mantissa_limit * 2 ^ Suc min_exponent" by simp
  finally show ?thesis by (rule below_overflow)
qed

lemma scale_pos: "0 < scale"
  by (simp add: scale_def)

lemma nat_scale: "nat scale = 2 ^ min_exponent"
  by (simp add: scale_def nat_power_eq)

lemma scale_int: "scale = int (2 ^ min_exponent)"
  by (simp add: scale_def)

lemma twice_scale: "2 * scale = int (2 ^ Suc min_exponent)"
  by (simp only: scale_def of_nat_mult of_nat_power of_nat_numeral power_Suc)

lemma top_scale: "2 ^ 54 * scale = int (mantissa_limit * 2 ^ Suc min_exponent)"
proof -
  have "(2::int) ^ 54 = 2 ^ 53 * 2" by simp
  then have "2 ^ 54 * scale = (2 ^ 53 * 2) * (2::int) ^ min_exponent" by (simp only: scale_def)
  also have "\<dots> = int (2 ^ 53 * 2 ^ Suc min_exponent)"
    by (simp only: of_nat_mult of_nat_power of_nat_numeral power_Suc mult.assoc)
  finally show ?thesis by (simp only: mantissa_limit_def)
qed

lemma whole_eq_iff: "whole a = whole b \<longleftrightarrow> a = b"
  using scale_pos by (simp add: whole_def)

lemma js_gt_whole: "js_gt (whole a) (whole b) \<longleftrightarrow> b < a"
  using scale_pos by (simp add: whole_def)

lemma is_doubleD:
  assumes "is_double k"
  obtains m j where "nat \<bar>k\<bar> = m * 2 ^ j" and "m < mantissa_limit"
proof -
  define a where "a = nat \<bar>k\<bar>"
  from assms have "2 ^ shift53 a dvd a" by (simp add: is_double_def a_def mod_eq_0_iff_dvd)
  then have "a = (a div 2 ^ shift53 a) * 2 ^ shift53 a" by simp
  moreover have "a div 2 ^ shift53 a < mantissa_limit" by (rule shift53_div_less)
  ultimately show ?thesis using that [of "a div 2 ^ shift53 a" "shift53 a"] by (simp add: a_def)
qed

lemma is_doubleI:
  assumes "nat \<bar>k\<bar> = m * 2 ^ j" and "m < mantissa_limit" and "nat \<bar>k\<bar> < overflow_limit"
  shows "is_double k"
proof -
  from assms(2) have "shift53 (m * 2 ^ j) \<le> j" by (rule shift53_mult_le)
  then have "(2::nat) ^ shift53 (m * 2 ^ j) dvd 2 ^ j" by (rule le_imp_power_dvd)
  then have "2 ^ shift53 (m * 2 ^ j) dvd m * 2 ^ j" by (rule dvd_mult)
  with assms(1,3) show ?thesis by (simp add: is_double_def mod_eq_0_iff_dvd)
qed

subsection \<open>Whole numbers below \<open>2^53\<close>: the arithmetic is exact\<close>

lemma rounded_whole:
  assumes "\<bar>v\<bar> < int mantissa_limit" and "0 < q" and "p = nat \<bar>v\<bar> * 2 ^ min_exponent * q"
    and "v \<noteq> 0 \<Longrightarrow> neg \<longleftrightarrow> v < 0"
  shows "rounded neg p q = whole v"
proof -
  define m where "m = nat \<bar>v\<bar>"
  from assms(1) have m: "m < mantissa_limit" by (simp add: m_def)
  have "int (m * 2 ^ min_exponent) = \<bar>v\<bar> * scale" by (simp add: m_def scale_int)
  with rounded_exact [OF assms(2) m mantissa_scaled_below_overflow [OF m], of neg] assms(3,4)
  show ?thesis by (cases "v = 0") (auto simp: whole_def m_def abs_if)
qed

lemma js_minus_whole:
  assumes "\<bar>a - b\<bar> < int mantissa_limit"
  shows "js_minus (whole a) (whole b) = whole (a - b)"
proof -
  have "\<bar>a * scale - b * scale\<bar> = \<bar>a - b\<bar> * scale"
    using scale_pos by (simp add: left_diff_distrib [symmetric] abs_mult)
  then have "nat \<bar>a * scale - b * scale\<bar> = nat \<bar>a - b\<bar> * 2 ^ min_exponent * 1"
    by (simp add: nat_mult_distrib nat_scale)
  moreover have "a * scale < b * scale \<longleftrightarrow> a - b < 0" using scale_pos by simp
  ultimately show ?thesis
    using rounded_whole [OF assms, of 1] by (simp add: whole_def)
qed

lemma js_times_whole:
  assumes "\<bar>a * b\<bar> < int mantissa_limit"
  shows "js_times (whole a) (whole b) = whole (a * b)"
proof -
  have "\<bar>a * scale * (b * scale)\<bar> = \<bar>a * b\<bar> * scale * scale"
    using scale_pos by (simp add: abs_mult)
  then have p: "nat \<bar>a * scale * (b * scale)\<bar> = nat \<bar>a * b\<bar> * 2 ^ min_exponent * nat scale"
    using scale_pos by (simp add: nat_mult_distrib nat_scale)
  have q: "0 < nat scale" using scale_pos by simp
  have sg: "(a * scale < 0) = (a < 0)" "(b * scale < 0) = (b < 0)"
    using scale_pos by (simp_all add: mult_less_0_iff)
  have "((a < 0) \<noteq> (b < 0)) \<longleftrightarrow> a * b < 0" if "a * b \<noteq> 0"
    using that by (auto simp: mult_less_0_iff)
  from rounded_whole [OF assms q p this] show ?thesis
    by (simp add: whole_def sg)
qed

lemma is_double_whole:
  assumes "\<bar>v\<bar> < int mantissa_limit"
  shows "is_double (v * scale)"
proof (rule is_doubleI [of _ "nat \<bar>v\<bar>" min_exponent])
  show "nat \<bar>v * scale\<bar> = nat \<bar>v\<bar> * 2 ^ min_exponent"
    using scale_pos by (simp add: abs_mult nat_mult_distrib nat_scale)
  show "nat \<bar>v\<bar> < mantissa_limit" using assms by simp
  then have "nat \<bar>v\<bar> * 2 ^ min_exponent < overflow_limit" by (rule mantissa_scaled_below_overflow)
  then show "nat \<bar>v * scale\<bar> < overflow_limit"
    using scale_pos by (simp add: abs_mult nat_mult_distrib nat_scale)
qed

subsection \<open>What the handler computes on a quota\<close>

text \<open>The difference of a number and a smaller one is positive: it never rounds to zero.\<close>

lemma js_minus_positive:
  assumes "js_gt x y"
  shows "js_gt (js_minus x y) (whole 0)"
proof (cases x)
  case (Finite a)
  show ?thesis
  proof (cases y)
    case (Finite b)
    with \<open>x = Finite a\<close> assms have "b < a" by simp
    then have "0 < round_ratio (nat \<bar>a - b\<bar>) 1" by (intro round_ratio_positive) simp
    with \<open>b < a\<close> \<open>x = Finite a\<close> Finite show ?thesis
      by (simp add: rounded_def Let_def whole_def infinity_def)
  qed (use assms Finite in \<open>simp_all add: whole_def\<close>)
next
  case PosInfinity
  with assms show ?thesis by (cases y) (simp_all add: whole_def)
qed (use assms in simp_all)

text \<open>
  Below \<open>2^54\<close> two neighbouring doubles are at most 2 apart, so taking an even whole number
  off a larger double is exact, and the result is a double again.
\<close>

lemma js_minus_exact:
  assumes "is_double k" and "0 \<le> n" and "n * (2 * scale) < k" and "k < 2 ^ 54 * scale"
  shows "js_minus (Finite k) (Finite (n * (2 * scale))) = Finite (k - n * (2 * scale))"
    and "is_double (k - n * (2 * scale))"
proof -
  define e where "e = Suc min_exponent"
  have twice: "2 * scale = int (2 ^ e)" unfolding e_def by (rule twice_scale)
  have top: "2 ^ 54 * scale = int (mantissa_limit * 2 ^ e)" unfolding e_def by (rule top_scale)
  have "0 \<le> n * (2 * scale)" using assms(2) scale_pos by simp
  from this assms(3) have kpos: "0 < k" by (rule le_less_trans)
  define c where "c = nat n * 2 ^ e"
  have c: "n * (2 * scale) = int c" using assms(2) by (simp add: c_def twice)
  define a where "a = nat k"
  have a: "k = int a" using kpos by (simp add: a_def)
  from assms(3) have "int c < int a" by (simp only: c a)
  then have ca: "c < a" by (simp only: of_nat_less_iff)
  from assms(4) have "int a < int (mantissa_limit * 2 ^ e)" by (simp only: a top)
  then have a54: "a < mantissa_limit * 2 ^ e" by (simp only: of_nat_less_iff)
  obtain m0 j0 where mj0: "a = m0 * 2 ^ j0" "m0 < mantissa_limit"
    using is_doubleD [OF assms(1)] kpos by (auto simp: a_def)
  obtain m j where mj: "a = m * 2 ^ j" "m < mantissa_limit" "j \<le> e"
  proof (cases "j0 \<le> e")
    case True
    with mj0 that show ?thesis by blast
  next
    case False
    then obtain i where i: "j0 = e + i" by (auto simp: not_le less_iff_Suc_add)
    have "a = (m0 * 2 ^ i) * 2 ^ e" by (simp add: mj0 i power_add)
    moreover from this a54 have "m0 * 2 ^ i < mantissa_limit" by simp
    ultimately show ?thesis using that by blast
  qed
  then obtain i where i: "e = j + i" by (auto simp: le_iff_add)
  have cj: "c = (nat n * 2 ^ i) * 2 ^ j" by (simp add: c_def i power_add)
  define m' where "m' = m - nat n * 2 ^ i"
  have d: "a - c = m' * 2 ^ j" by (simp add: m'_def cj mj(1) diff_mult_distrib)
  have m': "m' < mantissa_limit" using mj(2) by (simp add: m'_def)
  have "a - c < mantissa_limit * 2 ^ Suc min_exponent" using a54 by (simp add: e_def)
  then have o: "a - c < overflow_limit" by (rule below_overflow)
  have v: "k - n * (2 * scale) = int (a - c)"
    using ca by (simp only: a c of_nat_diff [OF less_imp_le])
  have n: "nat \<bar>k - n * (2 * scale)\<bar> = m' * 2 ^ j * 1"
    by (simp only: v d abs_of_nat nat_int mult_1_right)
  have lt: "\<not> k < n * (2 * scale)" using assms(3) by simp
  from o have o': "m' * 2 ^ j < overflow_limit" by (simp only: d)
  have "js_minus (Finite k) (Finite (n * (2 * scale)))
          = rounded False (m' * 2 ^ j * 1) 1"
    by (simp only: js_minus.simps n lt)
  also have "\<dots> = Finite (int (m' * 2 ^ j))"
    by (rule rounded_exact_difference [OF m' o'])
  finally show "js_minus (Finite k) (Finite (n * (2 * scale))) = Finite (k - n * (2 * scale))"
    by (simp only: v d)
  show "is_double (k - n * (2 * scale))"
  proof (rule is_doubleI [of _ m' j])
    show "nat \<bar>k - n * (2 * scale)\<bar> = m' * 2 ^ j" using n by simp
    show "m' < mantissa_limit" by (rule m')
    show "nat \<bar>k - n * (2 * scale)\<bar> < overflow_limit" using n o' by simp
  qed
qed

text \<open>Halving a double is exact unless its last bit, the bit of \<open>2^-1074\<close>, is set.\<close>

lemma js_divide_cost:
  assumes "is_double k" and "even k"
  shows "js_divide (Finite k) serviceCostPerLead = Finite (k div 2)"
proof -
  define a where "a = nat \<bar>k\<bar>"
  obtain m j where mj: "a = m * 2 ^ j" "m < mantissa_limit"
    using is_doubleD [OF assms(1)] by (auto simp: a_def)
  from assms(2) have "even a" by (simp add: a_def even_nat_iff)
  obtain m' j' where h: "a div 2 = m' * 2 ^ j'" "m' < mantissa_limit"
  proof (cases j)
    case 0
    with mj have "a div 2 = (m div 2) * 2 ^ 0" "m div 2 < mantissa_limit"
      by (simp_all add: less_imp_diff_less div_le_dividend le_less_trans)
    with that show ?thesis by blast
  next
    case (Suc i)
    with mj have "a div 2 = m * 2 ^ i" by simp
    with mj(2) that show ?thesis by blast
  qed
  from assms(1) have "a < overflow_limit" by (simp add: is_double_def a_def)
  moreover have "a div 2 \<le> a" by simp
  ultimately have o: "m' * 2 ^ j' < overflow_limit" by (simp only: h(1) [symmetric])
  have q: "0 < nat \<bar>2 * scale\<bar>" using scale_pos by simp
  from \<open>even a\<close> have "a = 2 * (a div 2)" by simp
  then have "int a = 2 * int (a div 2)" by (metis of_nat_mult of_nat_numeral)
  then have "\<bar>k\<bar> * scale = int (a div 2) * \<bar>2 * scale\<bar>"
    using scale_pos by (simp add: a_def)
  then have p: "nat (\<bar>k\<bar> * scale) = m' * 2 ^ j' * nat \<bar>2 * scale\<bar>"
    by (simp add: h(1) [symmetric] nat_mult_distrib)
  have v: "int (m' * 2 ^ j') = \<bar>k\<bar> div 2"
    by (simp add: h(1) [symmetric] a_def zdiv_int)
  have z: "2 * scale \<noteq> 0" "\<not> 2 * scale < 0" using scale_pos by simp_all
  have "js_divide (Finite k) serviceCostPerLead
          = rounded (k < 0) (nat (\<bar>k\<bar> * scale)) (nat \<bar>2 * scale\<bar>)"
    using z by (simp add: serviceCostPerLead_def whole_def)
  also have "\<dots> = Finite (if k < 0 then - int (m' * 2 ^ j') else int (m' * 2 ^ j'))"
    unfolding p by (rule rounded_exact [OF q h(2) o])
  also have "\<dots> = Finite (if k < 0 then - (\<bar>k\<bar> div 2) else \<bar>k\<bar> div 2)"
    by (simp only: v)
  also have "(if k < 0 then - (\<bar>k\<bar> div 2) else \<bar>k\<bar> div 2) = k div 2"
    using assms(2) by (simp add: abs_if) presburger
  finally show ?thesis .
qed


section \<open>The quota ledger\<close>

lemmas checkQuota_defs = checkQuota_def falsy_def catch_internal_def checkQuota_try_def
  firestore_get_def checkQuota_decide_def firestore_update_def issue_def Let_def

text \<open>The cost of a batch is exact: an array has fewer than \<open>2^32\<close> elements.\<close>

lemma creditsNeeded_exact:
  assumes "length xs < 2 ^ 32"
  shows "js_times (whole (int (length xs))) serviceCostPerLead
           = Finite (int (length xs) * (2 * scale))"
proof -
  from assms have "int (length xs) < 2 ^ 32"
    by (metis of_nat_less_iff of_nat_numeral of_nat_power)
  then have "\<bar>int (length xs) * 2\<bar> < int mantissa_limit"
    by (simp add: mantissa_limit_def)
  then have "js_times (whole (int (length xs))) (whole 2) = whole (int (length xs) * 2)"
    by (rule js_times_whole)
  then show ?thesis by (simp add: serviceCostPerLead_def whole_def mult.assoc)
qed

lemma js_ge_not_gt: "js_ge y x \<Longrightarrow> \<not> js_gt x y"
  by (cases x; cases y) (auto simp: js_ge_def)

lemma js_gt_imp_ge: "js_gt x y \<Longrightarrow> js_ge x y"
  by (simp add: js_ge_def)

lemma js_ge_whole: "js_ge (whole a) (whole b) \<longleftrightarrow> b \<le> a"
  using scale_pos by (auto simp: js_ge_def whole_def)

lemma js_divide_whole_even:
  assumes "\<bar>v\<bar> < int mantissa_limit" and "even v"
  shows "js_divide (whole v) serviceCostPerLead = whole (v div 2)"
proof -
  from assms(2) have "v * scale div 2 = (v div 2) * scale" by (auto elim: evenE)
  with js_divide_cost [OF is_double_whole [OF assms(1)]] assms(2) show ?thesis
    by (simp add: whole_def)
qed

lemma sample_number_to_string_whole:
  assumes "\<bar>v\<bar> < 2 ^ 53"
  shows "sample_number_to_string (whole v) = int_to_string v"
  using assms scale_pos by (simp add: sample_number_to_string_def whole_def)

text \<open>Evaluating the samples: their numbers are whole and small.\<close>

lemmas number_eval = js_times_whole js_minus_whole js_gt_whole js_ge_whole js_divide_whole_even
  sample_number_to_string_whole whole_eq_iff serviceCostPerLead_def mantissa_limit_def

text \<open>
  The decimal digits printed for an array length or a timestamp read back as the number.
\<close>

lemma digit_value_digit_char: "d < 10 \<Longrightarrow> digit_value (digit_char d) = d"
proof -
  assume "d < 10"
  then have "d \<in> {0, 1, 2, 3, 4, 5, 6, 7, 8, 9}" by auto
  then show ?thesis by (auto simp: digit_char_def digit_value_def)
qed

lemma decimal_value_nat_to_string: "decimal_value (nat_to_string n) = n"
proof (induction n rule: nat_to_string.induct)
  case (1 n)
  show ?case
  proof (cases "n < 10")
    case True
    then show ?thesis
      by (subst nat_to_string.simps) (simp add: decimal_value_def digit_value_digit_char)
  next
    case False
    with 1 have "decimal_value (nat_to_string (n div 10)) = n div 10" by simp
    with False show ?thesis
      by (subst nat_to_string.simps)
        (simp add: decimal_value_def digit_value_digit_char)
  qed
qed

lemma decimal_value_int_to_string: "decimal_value (int_to_string (int n)) = n"
  by (simp add: int_to_string_def decimal_value_nat_to_string)




text \<open>
  Claim C3, as stated, fails in two places. It covers the empty batch: with \<open>Q = 0\<close> and
  \<open>n = 0\<close> the condition \<open>Q \<le> n * 2\<close> holds, but the guard of line 136 answers first, with
  another message and no \<^verbatim>\<open>remainingQuota\<close>. And the store can fail: with \<open>Q = 4\<close>, three
  leads and a read that throws, the decision is that of the \<^verbatim>\<open>catch\<close> block.
\<close>

theorem checkQuota_denial_counterexample:
  "js_ge (js_times (whole (int (length ([] :: json list)))) serviceCostPerLead) (whole 0) \<and>
   docs (sample_world None 0) ''M1'' = Some \<lparr>ssfs_account_api_key = None, quota = whole 0\<rparr> \<and>
   fst (checkQuota (sample_env []) (sample_world None 0) (Some ''M1'') (Some []))
     = Inr \<lparr>message = ''At least one object is required'', allowed = Some False,
            usedQuota = None, remainingQuota = None\<rparr> \<and>
   js_ge (js_times (whole (int (length [''a'', ''b'', ''c'']))) serviceCostPerLead) (whole 4) \<and>
   docs (sample_world None 4) ''M1'' = Some \<lparr>ssfs_account_api_key = None, quota = whole 4\<rparr> \<and>
   fst (checkQuota (sample_env [0]) (sample_world None 4) (Some ''M1'') (Some [''a'', ''b'', ''c'']))
     = Inr \<lparr>message = ''Internal Server Error'', allowed = Some False,
            usedQuota = None, remainingQuota = None\<rparr>"
  by (simp add: checkQuota_defs sample_world_def sample_env_def at_least_one_object_def
      internal_server_error_def number_eval)

text \<open>
  Claim C3, amended. For an account with stored quota \<open>Q\<close> and a batch of \<open>n \<ge> 1\<close> objects
  with \<open>Q \<le> n * 2\<close>, when the store answers the read, \<^verbatim>\<open>checkQuota\<close> returns
  \<^verbatim>\<open>allowed: false\<close>, \<^verbatim>\<open>remainingQuota = Q\<close> and the message of line 164, which names \<open>n\<close>
  (in decimal digits) and the JavaScript quotient \<open>Q / 2\<close> as the runtime prints it; that
  quotient is exactly \<open>Q / 2\<close> for every finite \<open>Q\<close> that is a multiple of \<open>2^-1073\<close>. The
  document is read once and nothing is written.
\<close>

theorem checkQuota_denies_without_debit:
  assumes "sid \<noteq> []" and "docs w sid = Some acct"
    and "xs \<noteq> []" and "length xs < 2 ^ 32"
    and "\<not> fault ev (calls w)"
    and "js_ge (whole (int (length xs) * 2)) (quota acct)"
  shows "\<exists>w'. checkQuota ev w (Some sid) (Some xs) =
           (Inr \<lparr>message =
                   ''Quota exceeded, you'' @ [CHR 0x27] @ ''ve requested ''
                   @ int_to_string (int (length xs))
                   @ '' leads to be processed, only ''
                   @ number_to_string ev (js_divide (quota acct) serviceCostPerLead)
                   @ '' leads can be processed based on your remaining credits quota, additional subscription credits are required. Please renew your subscription.'',
                 allowed = Some False, usedQuota = None,
                 remainingQuota = Some (quota acct)\<rparr>, w') \<and>
           docs w' = docs w \<and> trace w' = trace w @ [FirestoreGet sid] \<and>
           decimal_value (int_to_string (int (length xs))) = length xs \<and>
           (\<forall>k. quota acct = Finite k \<and> is_double k \<and> even k \<longrightarrow>
                js_divide (quota acct) serviceCostPerLead = Finite (k div 2))"
proof -
  have "js_times (whole (int (length xs))) serviceCostPerLead = whole (int (length xs) * 2)"
    using creditsNeeded_exact [OF assms(4)] by (simp add: whole_def mult.assoc)
  moreover from assms(6) have "\<not> js_gt (quota acct) (whole (int (length xs) * 2))"
    by (rule js_ge_not_gt)
  moreover from assms(3) have "\<not> int (length xs) < 1" by (cases xs) simp_all
  ultimately show ?thesis
    using assms(1,2,5)
    by (auto simp: checkQuota_defs quota_exceeded_def quota_exceeded_message_def js_divide_cost
        decimal_value_int_to_string)
qed

theorem checkQuota_denies_without_debit_witness:
  "\<exists>w'. checkQuota (sample_env []) (sample_world None 4) (Some ''M1'') (Some [''a'', ''b'', ''c'']) =
      (Inr \<lparr>message = ''Quota exceeded, you'' @ [CHR 0x27] @ ''ve requested 3 leads to be processed, only 2 leads can be processed based on your remaining credits quota, additional subscription credits are required. Please renew your subscription.'',
            allowed = Some False, usedQuota = None, remainingQuota = Some (whole 4)\<rparr>, w') \<and>
      docs w' = docs (sample_world None 4) \<and> trace w' = [FirestoreGet ''M1''] \<and>
      whole 4 = Finite (4 * scale) \<and> is_double (4 * scale) \<and> even (4 * scale) \<and>
      js_divide (whole 4) serviceCostPerLead = Finite (4 * scale div 2)"
proof -
  have g: "js_ge (whole (int (length [''a'', ''b'', ''c'']) * 2)) (whole 4)"
    by (simp add: js_ge_whole)
  have f: "whole 4 = Finite (4 * scale)" by (simp add: whole_def)
  have d: "is_double (4 * scale)" by (rule is_double_whole) (simp add: mantissa_limit_def)
  have e: "even (4 * scale)" by simp
  from checkQuota_denies_without_debit [of "''M1''" "sample_world None 4"
      "\<lparr>ssfs_account_api_key = None, quota = whole 4\<rparr>" "[''a'', ''b'', ''c'']" "sample_env []"] g
  obtain w' where r: "checkQuota (sample_env []) (sample_world None 4) (Some ''M1'')
        (Some [''a'', ''b'', ''c'']) =
      (Inr \<lparr>message =
              ''Quota exceeded, you'' @ [CHR 0x27] @ ''ve requested ''
              @ int_to_string (int (length [''a'', ''b'', ''c'']))
              @ '' leads to be processed, only ''
              @ number_to_string (sample_env []) (js_divide (whole 4) serviceCostPerLead)
              @ '' leads can be processed based on your remaining credits quota, additional subscription credits are required. Please renew your subscription.'',
            allowed = Some False, usedQuota = None, remainingQuota = Some (whole 4)\<rparr>, w')"
    and s: "docs w' = docs (sample_world None 4)" "trace w' = trace (sample_world None 4) @ [FirestoreGet ''M1'']"
    and q: "\<forall>k. whole 4 = Finite k \<and> is_double k \<and> even k \<longrightarrow>
             js_divide (whole 4) serviceCostPerLead = Finite (k div 2)"
    by (auto simp add: sample_env_def sample_world_def)
  from q f d e have h: "js_divide (whole 4) serviceCostPerLead = Finite (4 * scale div 2)"
    by blast
  have "Finite (4 * scale div 2) = whole 2" by (simp add: whole_def)
  with h have p: "number_to_string (sample_env []) (js_divide (whole 4) serviceCostPerLead) = ''2''"
    by (simp add: sample_env_def sample_number_to_string_whole int_to_string_def
        nat_to_string.simps digit_char_def)
  have n: "int_to_string 3 = ''3''"
    by (simp add: int_to_string_def nat_to_string.simps digit_char_def)
  from r s have "\<exists>w'. checkQuota (sample_env []) (sample_world None 4) (Some ''M1'')
        (Some [''a'', ''b'', ''c'']) =
      (Inr \<lparr>message = ''Quota exceeded, you'' @ [CHR 0x27] @ ''ve requested 3 leads to be processed, only 2 leads can be processed based on your remaining credits quota, additional subscription credits are required. Please renew your subscription.'',
            allowed = Some False, usedQuota = None, remainingQuota = Some (whole 4)\<rparr>, w') \<and>
      docs w' = docs (sample_world None 4) \<and> trace w' = [FirestoreGet ''M1'']"
    by (simp add: p n sample_world_def)
  with f d e h show ?thesis by blast
qed

subsection \<open>The quota written is positive\<close>

lemma firestore_update_positive:
  assumes "firestore_update ev w sid q = (r, w')" and "js_gt q (whole 0)"
  shows "(\<exists>new. trace w' = trace w @ new \<and>
            (\<forall>s v. FirestoreUpdate s v \<in> set new \<longrightarrow> js_gt v (whole 0)))
       \<and> (\<forall>s. docs w' s \<noteq> docs w s \<longrightarrow>
            (\<exists>acct. docs w' s = Some acct \<and> js_gt (quota acct) (whole 0)))"
  using assms
  by (auto simp: firestore_update_def issue_def split: option.splits if_splits)

lemma checkQuota_decide_positive:
  assumes "checkQuota_decide ev w sid n doc = (r, w')"
  shows "(\<exists>new. trace w' = trace w @ new \<and>
            (\<forall>s v. FirestoreUpdate s v \<in> set new \<longrightarrow> js_gt v (whole 0)))
       \<and> (\<forall>s. docs w' s \<noteq> docs w s \<longrightarrow>
            (\<exists>acct. docs w' s = Some acct \<and> js_gt (quota acct) (whole 0)))"
proof (cases doc)
  case None
  with assms show ?thesis by (simp add: checkQuota_decide_def)
next
  case (Some data)
  define c where "c = js_times (whole n) serviceCostPerLead"
  show ?thesis
  proof (cases "js_gt (quota data) c")
    case False
    with Some assms show ?thesis by (simp add: checkQuota_decide_def Let_def c_def)
  next
    case True
    obtain r0 w0 where u: "firestore_update ev w sid (js_minus (quota data) c) = (r0, w0)"
      by (cases "firestore_update ev w sid (js_minus (quota data) c)")
    with Some True assms have "w' = w0"
      by (auto simp: checkQuota_decide_def Let_def c_def split: sum.splits)
    moreover from True have "js_gt (js_minus (quota data) c) (whole 0)"
      by (rule js_minus_positive)
    ultimately show ?thesis using firestore_update_positive [OF u] by simp
  qed
qed

lemma firestore_get_reads_only:
  "firestore_get ev w sid = (r, w') \<Longrightarrow> docs w' = docs w \<and> trace w' = trace w @ [FirestoreGet sid]"
  by (auto simp: firestore_get_def issue_def split: if_splits)

lemma checkQuota_try_positive:
  assumes "checkQuota_try ev w sid od = (r, w')"
  shows "(\<exists>new. trace w' = trace w @ new \<and>
            (\<forall>s v. FirestoreUpdate s v \<in> set new \<longrightarrow> js_gt v (whole 0)))
       \<and> (\<forall>s. docs w' s \<noteq> docs w s \<longrightarrow>
            (\<exists>acct. docs w' s = Some acct \<and> js_gt (quota acct) (whole 0)))"
proof (cases od)
  case None
  with assms show ?thesis by (simp add: checkQuota_try_def)
next
  case (Some xs)
  show ?thesis
  proof (cases "int (length xs) < 1")
    case True
    with Some assms show ?thesis by (simp add: checkQuota_try_def Let_def)
  next
    case False
    obtain r0 w0 where g: "firestore_get ev w sid = (r0, w0)"
      by (cases "firestore_get ev w sid")
    note ro = firestore_get_reads_only [OF g]
    show ?thesis
    proof (cases r0)
      case (Inl e)
      with Some False g assms have "w' = w0" by (simp add: checkQuota_try_def Let_def)
      with ro show ?thesis by simp
    next
      case (Inr doc)
      with Some False g assms have "checkQuota_decide ev w0 sid (int (length xs)) doc = (r, w')"
        by (simp add: checkQuota_try_def Let_def)
      from checkQuota_decide_positive [OF this] ro show ?thesis by auto
    qed
  qed
qed

text \<open>
  Claim C6. Whatever the account and the batch, every quota value \<^verbatim>\<open>checkQuota\<close> writes is
  strictly positive: each update it issues carries a positive value, a document it changed
  holds a positive quota, and if no account had a negative quota before the call, none has
  one after it.
\<close>

theorem checkQuota_writes_positive_quota:
  assumes "checkQuota ev w subscriptionId od = (r, w')"
  shows "(\<exists>new. trace w' = trace w @ new \<and>
            (\<forall>s v. FirestoreUpdate s v \<in> set new \<longrightarrow> js_gt v (whole 0)))
       \<and> (\<forall>s. docs w' s \<noteq> docs w s \<longrightarrow>
            (\<exists>acct. docs w' s = Some acct \<and> js_gt (quota acct) (whole 0)))
       \<and> ((\<forall>s acct. docs w s = Some acct \<longrightarrow> js_ge (quota acct) (whole 0))
            \<longrightarrow> (\<forall>s acct. docs w' s = Some acct \<longrightarrow> js_ge (quota acct) (whole 0)))"
proof (cases "falsy subscriptionId")
  case True
  with assms show ?thesis by (simp add: checkQuota_def)
next
  case False
  obtain r0 w0 where t: "checkQuota_try ev w (the subscriptionId) od = (r0, w0)"
    by (cases "checkQuota_try ev w (the subscriptionId) od")
  with False assms have "w' = w0"
    by (auto simp: checkQuota_def catch_internal_def split: sum.splits)
  with checkQuota_try_positive [OF t]
  have a: "\<exists>new. trace w' = trace w @ new \<and>
             (\<forall>s v. FirestoreUpdate s v \<in> set new \<longrightarrow> js_gt v (whole 0))"
    and b: "\<forall>s. docs w' s \<noteq> docs w s \<longrightarrow>
             (\<exists>acct. docs w' s = Some acct \<and> js_gt (quota acct) (whole 0))"
    by simp_all
  have "\<forall>s acct. docs w' s = Some acct \<longrightarrow> js_ge (quota acct) (whole 0)"
    if inv: "\<forall>s acct. docs w s = Some acct \<longrightarrow> js_ge (quota acct) (whole 0)"
  proof (intro allI impI)
    fix s acct assume h: "docs w' s = Some acct"
    show "js_ge (quota acct) (whole 0)"
    proof (cases "docs w' s = docs w s")
      case True with h inv show ?thesis by simp
    next
      case False
      with b obtain a where "docs w' s = Some a" and "js_gt (quota a) (whole 0)" by blast
      with h show ?thesis by (simp add: js_gt_imp_ge)
    qed
  qed
  with a b show ?thesis by blast
qed

theorem checkQuota_writes_positive_quota_witness:
  "docs (snd (checkQuota (sample_env []) (sample_world None 10) (Some ''M1'')
                (Some [''a'', ''b'', ''c'']))) ''M1''
      \<noteq> docs (sample_world None 10) ''M1'' \<and>
   (\<exists>acct. docs (snd (checkQuota (sample_env []) (sample_world None 10) (Some ''M1'')
                       (Some [''a'', ''b'', ''c'']))) ''M1'' = Some acct
      \<and> js_gt (quota acct) (whole 0))"
  using checkQuota_writes_positive_quota [of "sample_env []" "sample_world None 10" "Some ''M1''"
      "Some [''a'', ''b'', ''c'']"
      "fst (checkQuota (sample_env []) (sample_world None 10) (Some ''M1'') (Some [''a'', ''b'', ''c'']))"
      "snd (checkQuota (sample_env []) (sample_world None 10) (Some ''M1'') (Some [''a'', ''b'', ''c'']))"]
  by (simp add: checkQuota_defs sample_env_def sample_world_def number_eval)

subsection \<open>Store errors\<close>

text \<open>
  Claim C7. \<^verbatim>\<open>checkQuota\<close> always returns a decision, never an exception. When the read of
  the document throws, and when the read succeeds, the quota suffices and the update throws,
  the decision is \<^verbatim>\<open>allowed: false\<close> with the message \<^verbatim>\<open>Internal Server Error\<close>
  (and the failed update has written nothing).
\<close>

theorem checkQuota_catches_store_errors:
  "(\<exists>d. fst (checkQuota ev w subscriptionId od) = Inr d) \<and>
   (sid \<noteq> [] \<and> xs \<noteq> [] \<and> fault ev (calls w) \<longrightarrow>
      fst (checkQuota ev w (Some sid) (Some xs))
        = Inr \<lparr>message = ''Internal Server Error'', allowed = Some False,
               usedQuota = None, remainingQuota = None\<rparr>) \<and>
   (sid \<noteq> [] \<and> xs \<noteq> [] \<and> \<not> fault ev (calls w) \<and> docs w sid = Some acct \<and>
    js_gt (quota acct) (js_times (whole (int (length xs))) serviceCostPerLead) \<and>
    fault ev (Suc (calls w)) \<longrightarrow>
      fst (checkQuota ev w (Some sid) (Some xs))
        = Inr \<lparr>message = ''Internal Server Error'', allowed = Some False,
               usedQuota = None, remainingQuota = None\<rparr> \<and>
      docs (snd (checkQuota ev w (Some sid) (Some xs))) = docs w)"
proof (intro conjI impI)
  show "\<exists>d. fst (checkQuota ev w subscriptionId od) = Inr d"
    by (cases "checkQuota_try ev w (the subscriptionId) od")
      (auto simp: checkQuota_def catch_internal_def split: sum.splits)
next
  assume h: "sid \<noteq> [] \<and> xs \<noteq> [] \<and> fault ev (calls w)"
  then have "\<not> int (length xs) < 1" by (cases xs) simp_all
  with h show "fst (checkQuota ev w (Some sid) (Some xs))
        = Inr \<lparr>message = ''Internal Server Error'', allowed = Some False,
               usedQuota = None, remainingQuota = None\<rparr>"
    by (simp add: checkQuota_defs internal_server_error_def)
next
  assume h: "sid \<noteq> [] \<and> xs \<noteq> [] \<and> \<not> fault ev (calls w) \<and> docs w sid = Some acct \<and>
    js_gt (quota acct) (js_times (whole (int (length xs))) serviceCostPerLead) \<and>
    fault ev (Suc (calls w))"
  then have n: "\<not> int (length xs) < 1" by (cases xs) simp_all
  with h show "fst (checkQuota ev w (Some sid) (Some xs))
        = Inr \<lparr>message = ''Internal Server Error'', allowed = Some False,
               usedQuota = None, remainingQuota = None\<rparr>"
    by (simp add: checkQuota_defs internal_server_error_def)
  from h n show "docs (snd (checkQuota ev w (Some sid) (Some xs))) = docs w"
    by (simp add: checkQuota_defs internal_server_error_def)
qed

theorem checkQuota_catches_store_errors_witness:
  "fst (checkQuota (sample_env [0]) (sample_world None 10) (Some ''M1'') (Some [''a'']))
     = Inr \<lparr>message = ''Internal Server Error'', allowed = Some False,
            usedQuota = None, remainingQuota = None\<rparr> \<and>
   fst (checkQuota (sample_env [1]) (sample_world None 10) (Some ''M1'') (Some [''a'']))
     = Inr \<lparr>message = ''Internal Server Error'', allowed = Some False,
            usedQuota = None, remainingQuota = None\<rparr> \<and>
   docs (snd (checkQuota (sample_env [1]) (sample_world None 10) (Some ''M1'') (Some [''a''])))
     = docs (sample_world None 10)"
  using checkQuota_catches_store_errors [of "sample_env [0]" "sample_world None 10" "Some ''M1''"
      "Some [''a'']" "''M1''" "[''a'']" "\<lparr>ssfs_account_api_key = None, quota = whole 10\<rparr>"]
    checkQuota_catches_store_errors [of "sample_env [1]" "sample_world None 10" "Some ''M1''"
      "Some [''a'']" "''M1''" "[''a'']" "\<lparr>ssfs_account_api_key = None, quota = whole 10\<rparr>"]
  by (simp add: sample_env_def sample_world_def number_eval)

subsection \<open>The early returns\<close>

text \<open>
  Both early returns leave the world as it was: no store call is issued. The empty batch
  gets its own message whatever the account holds.
\<close>

lemma checkQuota_fails_fast:
  "falsy subscriptionId \<Longrightarrow> checkQuota ev w subscriptionId od = (Inr subscriptionId_required, w)"
  "\<not> falsy subscriptionId \<Longrightarrow> checkQuota ev w subscriptionId (Some []) = (Inr at_least_one_object, w)"
  by (simp_all add: checkQuota_def catch_internal_def checkQuota_try_def)

text \<open>
  Claim C8, at the input where the code departs from it. For an empty or undefined
  \<^verbatim>\<open>subscriptionId\<close> the object returned by line 129 is \<^verbatim>\<open>{ message: 'subscriptionId is
  required' }\<close>: it has no \<^verbatim>\<open>allowed\<close> field at all, where every other return of the
  function sets \<^verbatim>\<open>allowed\<close>. The world is untouched.
\<close>

theorem empty_subscriptionId_has_no_allowed_field:
  "checkQuota (sample_env []) (sample_world None 10) (Some []) (Some [''a''])
     = (Inr \<lparr>message = ''subscriptionId is required'', allowed = None,
             usedQuota = None, remainingQuota = None\<rparr>, sample_world None 10) \<and>
   checkQuota (sample_env []) (sample_world None 10) None (Some [''a''])
     = (Inr \<lparr>message = ''subscriptionId is required'', allowed = None,
             usedQuota = None, remainingQuota = None\<rparr>, sample_world None 10)"
  by (simp add: checkQuota_def falsy_def subscriptionId_required_def)

subsection \<open>Two debits on one account\<close>

text \<open>
  Past its two guards, \<^verbatim>\<open>checkQuota\<close> is the read followed by the decision on what was
  read, inside the \<^verbatim>\<open>try\<close>: the two pieces the interleaved run is made of.
\<close>

lemma checkQuota_read_then_decide:
  assumes "sid \<noteq> []" and "xs \<noteq> []"
  shows "checkQuota ev w (Some sid) (Some xs) =
           catch_internal
             (case firestore_get ev w sid of
                (Inl e, w') \<Rightarrow> (Inl e, w')
              | (Inr doc, w') \<Rightarrow> checkQuota_decide ev w' sid (int (length xs)) doc)"
proof -
  from assms(2) have "\<not> int (length xs) < 1" by (cases xs) simp_all
  with assms(1) show ?thesis
    by (simp add: checkQuota_def falsy_def checkQuota_try_def Let_def)
qed

text \<open>
  Claim C9, as stated, fails: the account holds 10 credits, two batches of three leads cost
  6 credits each, both reads see 10, both calls answer \<^verbatim>\<open>Success\<close> and both write 4.
\<close>

theorem interleaved_debits_both_succeed:
  "map_option quota (docs (sample_world None 10) ''M1'') = Some (whole 10) \<and>
   fst (checkQuota_interleaved (sample_env []) (sample_world None 10) ''M1''
          [''a'', ''b'', ''c''] [''d'', ''e'', ''f''])
     = Inr \<lparr>message = ''Success'', allowed = Some True, usedQuota = Some (whole 6),
            remainingQuota = Some (whole 4)\<rparr> \<and>
   fst (snd (checkQuota_interleaved (sample_env []) (sample_world None 10) ''M1''
          [''a'', ''b'', ''c''] [''d'', ''e'', ''f'']))
     = Inr \<lparr>message = ''Success'', allowed = Some True, usedQuota = Some (whole 6),
            remainingQuota = Some (whole 4)\<rparr> \<and>
   (10 :: int) < 6 + 6 \<and>
   map_option quota (docs (snd (snd (checkQuota_interleaved (sample_env [])
          (sample_world None 10) ''M1'' [''a'', ''b'', ''c''] [''d'', ''e'', ''f'']))) ''M1'')
     = Some (whole 4) \<and>
   trace (snd (snd (checkQuota_interleaved (sample_env [])
          (sample_world None 10) ''M1'' [''a'', ''b'', ''c''] [''d'', ''e'', ''f''])))
     = [FirestoreGet ''M1'', FirestoreGet ''M1'', FirestoreUpdate ''M1'' (whole 4),
        FirestoreUpdate ''M1'' (whole 4)]"
  by (simp add: checkQuota_interleaved_def checkQuota_defs sample_env_def sample_world_def
      number_eval success_def)

lemma checkQuota_allowed_D:
  assumes "checkQuota ev w (Some sid) (Some xs) = (Inr d, w')" and "allowed d = Some True"
  shows "\<exists>acct. docs w sid = Some acct \<and>
           js_gt (quota acct) (js_times (whole (int (length xs))) serviceCostPerLead) \<and>
           usedQuota d = Some (js_times (whole (int (length xs))) serviceCostPerLead) \<and>
           docs w' = (docs w)(sid \<mapsto> acct\<lparr>quota :=
                        js_minus (quota acct)
                          (js_times (whole (int (length xs))) serviceCostPerLead)\<rparr>)"
  using assms
  by (auto simp: checkQuota_defs subscriptionId_required_def at_least_one_object_def
      id_not_found_def internal_server_error_def quota_exceeded_def success_def
      split: option.splits if_splits)

text \<open>
  One debit on an account whose quota is a finite number \<open>Q\<close> below \<open>2^54\<close>: if it is allowed,
  the cost is below \<open>Q\<close> and the account is left with exactly \<open>Q\<close> less the cost, again a double.
\<close>

lemma allowed_debit_exact:
  assumes "docs w sid = Some acct" and "quota acct = Finite k" and "is_double k"
    and "k < 2 ^ 54 * scale" and "length xs < 2 ^ 32"
    and "checkQuota ev w (Some sid) (Some xs) = (Inr d, w')" and "allowed d = Some True"
  shows "usedQuota d = Some (whole (int (length xs) * 2))"
    and "int (length xs) * (2 * scale) < k"
    and "docs w' sid = Some (acct\<lparr>quota := Finite (k - int (length xs) * (2 * scale))\<rparr>)"
    and "is_double (k - int (length xs) * (2 * scale))"
proof -
  note c = creditsNeeded_exact [OF assms(5)]
  from checkQuota_allowed_D [OF assms(6,7)] assms(1,2)
  have g: "js_gt (Finite k) (Finite (int (length xs) * (2 * scale)))"
    and u: "usedQuota d = Some (Finite (int (length xs) * (2 * scale)))"
    and w': "docs w' = (docs w)(sid \<mapsto> acct\<lparr>quota :=
               js_minus (Finite k) (Finite (int (length xs) * (2 * scale)))\<rparr>)"
    by (auto simp: c)
  from g show l: "int (length xs) * (2 * scale) < k" by simp
  note m = js_minus_exact [OF assms(3) _ l assms(4)]
  from u show "usedQuota d = Some (whole (int (length xs) * 2))"
    by (simp add: whole_def mult.assoc)
  from w' m(1) show "docs w' sid = Some (acct\<lparr>quota := Finite (k - int (length xs) * (2 * scale))\<rparr>)"
    by (simp del: js_minus.simps)
  from m(2) show "is_double (k - int (length xs) * (2 * scale))" by simp
qed

text \<open>
  Claim C9, amended. \<^verbatim>\<open>checkQuota\<close> is a read followed by a separate update, with no
  transaction. For an account whose quota is a finite number \<open>Q\<close> below \<open>2^54\<close>, two debits
  that run one after the other are both applied exactly, and both succeed only if their
  combined cost is below \<open>Q\<close>.
\<close>

theorem sequential_debits_serialize:
  assumes "docs w sid = Some acct" and "quota acct = Finite k" and "is_double k"
    and "k < 2 ^ 54 * scale" and "length xs < 2 ^ 32" and "length ys < 2 ^ 32"
    and "checkQuota ev w (Some sid) (Some xs) = (Inr d1, w1)" and "allowed d1 = Some True"
    and "checkQuota ev w1 (Some sid) (Some ys) = (Inr d2, w2)" and "allowed d2 = Some True"
  shows "usedQuota d1 = Some (whole (int (length xs) * 2)) \<and>
         usedQuota d2 = Some (whole (int (length ys) * 2)) \<and>
         (int (length xs) + int (length ys)) * (2 * scale) < k \<and>
         map_option quota (docs w2 sid)
           = Some (Finite (k - (int (length xs) + int (length ys)) * (2 * scale)))"
proof -
  define k1 where "k1 = k - int (length xs) * (2 * scale)"
  note first = allowed_debit_exact [OF assms(1,2,3,4,5,7,8)]
  have "0 \<le> int (length xs) * (2 * scale)" using scale_pos by simp
  then have "k1 \<le> k" unfolding k1_def by linarith
  from this assms(4) have b: "k1 < 2 ^ 54 * scale" by (rule le_less_trans)
  have q: "quota (acct\<lparr>quota := Finite k1\<rparr>) = Finite k1" by simp
  note second = allowed_debit_exact [OF first(3) [folded k1_def] q first(4) [folded k1_def] b
      assms(6,9,10)]
  from second(2) have "(int (length xs) + int (length ys)) * (2 * scale) < k"
    by (simp add: k1_def distrib_right)
  moreover from second(3)
  have "map_option quota (docs w2 sid)
          = Some (Finite (k - (int (length xs) + int (length ys)) * (2 * scale)))"
    by (simp add: k1_def distrib_right)
  ultimately show ?thesis using first(1) second(1) by simp
qed

theorem sequential_debits_serialize_witness:
  "usedQuota (success (whole 6) (whole 14)) = Some (whole (int (length [''a'', ''b'', ''c'']) * 2)) \<and>
   usedQuota (success (whole 6) (whole 8)) = Some (whole (int (length [''d'', ''e'', ''f'']) * 2)) \<and>
   (int (length [''a'', ''b'', ''c'']) + int (length [''d'', ''e'', ''f''])) * (2 * scale) < 20 * scale \<and>
   map_option quota (docs (snd (checkQuota (sample_env [])
         (snd (checkQuota (sample_env []) (sample_world None 20) (Some ''M1'')
                 (Some [''a'', ''b'', ''c''])))
         (Some ''M1'') (Some [''d'', ''e'', ''f'']))) ''M1'')
     = Some (Finite (20 * scale
               - (int (length [''a'', ''b'', ''c'']) + int (length [''d'', ''e'', ''f''])) * (2 * scale)))"
proof -
  have d: "is_double (20 * scale)" by (rule is_double_whole) (simp add: mantissa_limit_def)
  have b: "20 * scale < 2 ^ 54 * scale" using scale_pos by simp
  have f: "quota \<lparr>ssfs_account_api_key = None, quota = whole 20\<rparr> = Finite (20 * scale)"
    by (simp add: whole_def)
  have r1: "checkQuota (sample_env []) (sample_world None 20) (Some ''M1'') (Some [''a'', ''b'', ''c''])
      = (Inr (success (whole 6) (whole 14)),
         snd (checkQuota (sample_env []) (sample_world None 20) (Some ''M1'')
                (Some [''a'', ''b'', ''c''])))"
    by (simp add: checkQuota_defs sample_env_def sample_world_def number_eval)
  have r2: "checkQuota (sample_env [])
        (snd (checkQuota (sample_env []) (sample_world None 20) (Some ''M1'')
                (Some [''a'', ''b'', ''c''])))
        (Some ''M1'') (Some [''d'', ''e'', ''f''])
      = (Inr (success (whole 6) (whole 8)),
         snd (checkQuota (sample_env [])
           (snd (checkQuota (sample_env []) (sample_world None 20) (Some ''M1'')
                   (Some [''a'', ''b'', ''c''])))
           (Some ''M1'') (Some [''d'', ''e'', ''f''])))"
    by (simp add: checkQuota_defs sample_env_def sample_world_def number_eval)
  have a: "docs (sample_world None 20) ''M1'' = Some \<lparr>ssfs_account_api_key = None, quota = whole 20\<rparr>"
    by (simp add: sample_world_def)
  show ?thesis
    by (rule sequential_debits_serialize [OF a f d b _ _ r1 _ r2]) (simp_all add: success_def)
qed

subsection \<open>A quota that is not a whole number\<close>

text \<open>
  The number 2.5 is \<open>Finite (5 * (scale div 2))\<close>. With one lead the request is allowed and
  0.5 is written.
\<close>

lemma half_scale: "scale = 2 * (scale div 2)" "0 < scale div 2"
proof -
  have "min_exponent = Suc (min_exponent - 1)" by (simp add: min_exponent_def)
  then have "scale = 2 * 2 ^ (min_exponent - 1)" by (metis scale_def power_Suc)
  moreover from this have "scale div 2 = 2 ^ (min_exponent - 1)" by simp
  ultimately show "scale = 2 * (scale div 2)" "0 < scale div 2" by simp_all
qed

lemma is_double_halves:
  assumes "\<bar>v\<bar> < int mantissa_limit"
  shows "is_double (v * (scale div 2))"
proof -
  have e: "min_exponent = Suc (min_exponent - 1)" by (simp add: min_exponent_def)
  then have "scale = 2 * 2 ^ (min_exponent - 1)" by (metis scale_def power_Suc)
  then have h: "scale div 2 = int (2 ^ (min_exponent - 1))" by simp
  show ?thesis
  proof (rule is_doubleI [of _ "nat \<bar>v\<bar>" "min_exponent - 1"])
    show n: "nat \<bar>v * (scale div 2)\<bar> = nat \<bar>v\<bar> * 2 ^ (min_exponent - 1)"
      by (simp add: h abs_mult nat_mult_distrib nat_power_eq)
    show m: "nat \<bar>v\<bar> < mantissa_limit" using assms by simp
    then have "nat \<bar>v\<bar> * 2 ^ min_exponent < overflow_limit"
      by (rule mantissa_scaled_below_overflow)
    moreover have "nat \<bar>v\<bar> * 2 ^ (min_exponent - 1) \<le> nat \<bar>v\<bar> * 2 ^ min_exponent"
      by (intro mult_le_mono2 power_increasing) simp_all
    ultimately show "nat \<bar>v * (scale div 2)\<bar> < overflow_limit" by (simp only: n)
  qed
qed

lemma quota_two_and_a_half:
  "checkQuota (sample_env [])
     \<lparr>docs = [''M1'' \<mapsto> \<lparr>ssfs_account_api_key = None, quota = Finite (5 * (scale div 2))\<rparr>],
      files = Map.empty, sent = None, calls = 0, trace = []\<rparr>
     (Some ''M1'') (Some [''a''])
   = (Inr \<lparr>message = ''Success'', allowed = Some True, usedQuota = Some (whole 2),
           remainingQuota = Some (Finite (scale div 2))\<rparr>,
      \<lparr>docs = [''M1'' \<mapsto> \<lparr>ssfs_account_api_key = None, quota = Finite (scale div 2)\<rparr>],
       files = Map.empty, sent = None, calls = 2,
       trace = [FirestoreGet ''M1'', FirestoreUpdate ''M1'' (Finite (scale div 2))]\<rparr>)"
proof -
  define h where "h = scale div 2"
  have s: "scale = 2 * h" and hp: "0 < h" using half_scale by (simp_all add: h_def)
  have d: "is_double (5 * h)" unfolding h_def by (rule is_double_halves) (simp add: mantissa_limit_def)
  have "js_minus (Finite (5 * h)) (Finite (1 * (2 * scale))) = Finite (5 * h - 1 * (2 * scale))"
    using hp by (intro js_minus_exact(1) [OF d]) (simp_all add: s)
  then have m: "js_minus (Finite (5 * h)) (whole 2) = Finite h"
    by (simp add: whole_def s del: js_minus.simps)
  have g: "js_gt (Finite (5 * h)) (whole 2)" using hp by (simp add: whole_def s)
  have c: "js_times (whole 1) serviceCostPerLead = whole 2"
    by (simp add: number_eval)
  show ?thesis
    unfolding h_def [symmetric]
    by (simp add: checkQuota_defs sample_env_def success_def c g m del: js_minus.simps js_gt.simps)
qed

section \<open>The request handler\<close>

lemmas handler_defs = submitAsyncAction_def authMiddleware_def submitAsyncAction_next_def
  context_subscription_munchkinId_def getUserApiKey_def res_send_def bucket_save_def
  axios_post_def template_string_def template_id_def

lemmas sample_defs = sample_env_def sample_world_def sample_request_def
  serviceName_def bucketName_def nat_to_string.simps digit_char_def

lemma getUserApiKey_reads_only:
  "getUserApiKey ev w mid = (r, w') \<Longrightarrow>
     (\<exists>k. r = Inr k) \<and> docs w' = docs w \<and> files w' = files w \<and> sent w' = sent w \<and>
     (trace w' = trace w \<or> (\<exists>sid. trace w' = trace w @ [FirestoreGet sid]))"
  by (auto simp: getUserApiKey_def firestore_get_def issue_def split: if_splits option.splits)

text \<open>
  Claim C4. When the request reaches the credential check (its body has
  \<^verbatim>\<open>context.subscription\<close>) and the header is missing or differs from the string the
  middleware compares it with, the handler answers 401 and nothing else happens: no document
  and no file changes, and no update, save or notification is issued.
\<close>

theorem rejected_request_has_no_side_effects:
  assumes "body_context (body req) = Some c" and "subscription c = Some s"
    and "getUserApiKey ev w (munchkinId s) = (Inr k, w1)"
    and "falsy (x_api_key req) \<or> the (x_api_key req) \<noteq> template_string k"
    and "sent w = None"
  shows "\<exists>w'. submitAsyncAction ev w req = (Inr (), w') \<and>
           sent w' = Some (401, Json_error (if falsy (x_api_key req)
                                            then ''Authorization header missing''
                                            else ''Invalid credentials'')) \<and>
           docs w' = docs w \<and> files w' = files w \<and>
           filter side_effect (trace w') = filter side_effect (trace w)"
proof -
  from getUserApiKey_reads_only [OF assms(3)] assms(5)
  have ro: "docs w1 = docs w" "files w1 = files w" "sent w1 = None"
    "filter side_effect (trace w1) = filter side_effect (trace w)"
    by auto
  from assms(1,2,3,4) ro(3)
  have "submitAsyncAction ev w req =
          (Inr (), w1\<lparr>sent := Some (401, Json_error (if falsy (x_api_key req)
                                            then ''Authorization header missing''
                                            else ''Invalid credentials'')),
                     trace := trace w1 @ [Respond 401 (Json_error (if falsy (x_api_key req)
                                            then ''Authorization header missing''
                                            else ''Invalid credentials''))]\<rparr>)"
    by (auto simp: submitAsyncAction_def authMiddleware_def context_subscription_munchkinId_def
        res_send_def)
  with ro show ?thesis by simp
qed

theorem rejected_request_has_no_side_effects_witness:
  "\<exists>w'. submitAsyncAction (sample_env []) (sample_world (Some ''key'') 10)
           (sample_request (Some ''wrong'') ''M1'' [''a'']) = (Inr (), w') \<and>
         sent w' = Some (401, Json_error ''Invalid credentials'') \<and>
         docs w' = docs (sample_world (Some ''key'') 10) \<and>
         files w' = files (sample_world (Some ''key'') 10) \<and>
         filter side_effect (trace w') = []"
  using rejected_request_has_no_side_effects [of "sample_request (Some ''wrong'') ''M1'' [''a'']"
      "\<lparr>subscription = Some \<lparr>munchkinId = Some ''M1''\<rparr>\<rparr>" "\<lparr>munchkinId = Some ''M1''\<rparr>"
      "sample_env []" "sample_world (Some ''key'') 10" "JsString ''key''"
      "issue (FirestoreGet ''M1'') (sample_world (Some ''key'') 10)"]
  by (auto simp add: sample_world_def sample_request_def sample_env_def getUserApiKey_def
      firestore_get_def issue_def falsy_def template_string_def)

text \<open>
  Claim C10. A request whose body has no \<^verbatim>\<open>context\<close> or no \<^verbatim>\<open>context.subscription\<close>
  is answered 500: line 39 throws before line 43 looks at the header, so the answer is the
  same with and without a credential, no store call is made and nothing is written.
\<close>

theorem missing_subscription_is_500:
  assumes "body_context (body req) = None \<or>
           (\<exists>c. body_context (body req) = Some c \<and> subscription c = None)"
    and "sent w = None"
  shows "\<exists>w'. submitAsyncAction ev w req = (Inr (), w') \<and>
           sent w' = Some (500, Text ''Internal Server Error'') \<and>
           trace w' = trace w @ [ConsoleError TypeError, Respond 500 (Text ''Internal Server Error'')] \<and>
           calls w' = calls w \<and> docs w' = docs w \<and> files w' = files w"
  using assms
  by (auto simp: handler_defs)

theorem missing_subscription_is_500_witness:
  "\<exists>w'. submitAsyncAction (sample_env []) (sample_world (Some ''key'') 10)
           (sample_request_no_subscription None) = (Inr (), w') \<and>
           sent w' = Some (500, Text ''Internal Server Error'') \<and>
           trace w' = [ConsoleError TypeError, Respond 500 (Text ''Internal Server Error'')] \<and>
           calls w' = 0 \<and> docs w' = docs (sample_world (Some ''key'') 10)"
  using missing_subscription_is_500 [of "sample_request_no_subscription None"
      "sample_world (Some ''key'') 10" "sample_env []"]
  by (auto simp add: sample_world_def sample_request_no_subscription_def)

text \<open>
  Claim C2, at the input where the code departs from it. The account \<^verbatim>\<open>M1\<close> has no stored
  key, so \<^verbatim>\<open>getUserApiKey\<close> returns \<^verbatim>\<open>false\<close>; line 48 compares the header with
  \<^verbatim>\<open>`${userApiKey}`\<close>, the string \<^verbatim>\<open>false\<close>, and a caller presenting that string is
  accepted: 201, and two credits debited. For an account that does not exist the compared
  string is \<^verbatim>\<open>[object Object]\<close>; a caller presenting it passes the credential check and
  is answered 403, not 401.
\<close>

theorem no_stored_key_accepts_false:
  "ssfs_account_api_key (the (docs (sample_world None 10) ''M1'')) = None \<and>
   sent (snd (submitAsyncAction (sample_env []) (sample_world None 10)
                (sample_request (Some ''false'') ''M1'' [''a''])))
     = Some (201, Text ''Request accepted successfully'') \<and>
   map_option quota (docs (snd (submitAsyncAction (sample_env []) (sample_world None 10)
                (sample_request (Some ''false'') ''M1'' [''a'']))) ''M1'') = Some (whole 8) \<and>
   docs (sample_world None 10) ''M2'' = None \<and>
   sent (snd (submitAsyncAction (sample_env []) (sample_world None 10)
                (sample_request (Some ''[object Object]'') ''M2'' [''a''])))
     = Some (403, Json_error ''ID not found'')"
  by (simp add: handler_defs checkQuota_defs sample_defs number_eval success_def
      id_not_found_def)

subsection \<open>Accepted requests\<close>

text \<open>
  An accepted request, the store and the bucket answering: the 201 is sent before the
  notification is posted, and it is the response whether or not the post fails. A failed
  post ends as an unhandled rejection.
\<close>

lemma accepted_request_trace:
  assumes "body_context (body req) = Some c" and "subscription c = Some s"
    and "munchkinId s = Some sid" and "sid \<noteq> []"
    and "objectData (body req) = Some xs" and "xs \<noteq> []"
    and "docs w sid = Some acct" and "ssfs_account_api_key acct = Some k"
    and "x_api_key req = Some k" and "k \<noteq> []"
    and "js_gt (quota acct) (js_times (whole (int (length xs))) serviceCostPerLead)"
    and "sent w = None"
    and "\<not> fault ev (calls w)" and "\<not> fault ev (Suc (calls w))"
    and "\<not> fault ev (Suc (Suc (calls w)))" and "\<not> fault ev (Suc (Suc (Suc (calls w))))"
  shows "\<exists>w' name. submitAsyncAction ev w req = (Inr (), w') \<and>
           sent w' = Some (201, Text ''Request accepted successfully'') \<and>
           trace w' = trace w @
             [FirestoreGet sid, FirestoreGet sid,
              FirestoreUpdate sid
                (js_minus (quota acct) (js_times (whole (int (length xs))) serviceCostPerLead)),
              BucketSave name (body req),
              Respond 201 (Text ''Request accepted successfully''),
              AxiosPost (targetUrl ev)
                \<lparr>payload_filename = name, payload_bucketName = bucketName,
                 payload_path = ''gs://'' @ bucketName @ ''/'' @ name\<rparr>]
             @ (if fault ev (Suc (Suc (Suc (Suc (calls w))))) then [UnhandledRejection AxiosError]
                else [])"
proof -
  from assms(6) have "\<not> int (length xs) < 1" by (cases xs) simp_all
  with assms show ?thesis
    by (simp add: handler_defs checkQuota_defs success_def)
qed

text \<open>
  Claim C5, at the input where the code departs from it. The request is accepted and the
  fifth external call, the notification, throws. The response stays the 201 sent before the
  post, but the error is not logged: \<^verbatim>\<open>next()\<close> is not awaited (line 52), so the
  \<^verbatim>\<open>catch\<close> of lines 112-115 with its \<^verbatim>\<open>console.error\<close> never sees it.
\<close>

theorem notification_failure_is_unhandled:
  "submitAsyncAction (sample_env [4]) (sample_world (Some ''key'') 10)
     (sample_request (Some ''key'') ''M1'' [''a'', ''b'', ''c''])
   = (Inr (),
      \<lparr>docs = [''M1'' \<mapsto> \<lparr>ssfs_account_api_key = Some ''key'', quota = whole 4\<rparr>],
       files = [''ssfs-ethan-oct16/M1/data-1729036800000.json'' \<mapsto>
                  body (sample_request (Some ''key'') ''M1'' [''a'', ''b'', ''c''])],
       sent = Some (201, Text ''Request accepted successfully''),
       calls = 5,
       trace = [FirestoreGet ''M1'', FirestoreGet ''M1'', FirestoreUpdate ''M1'' (whole 4),
                BucketSave ''ssfs-ethan-oct16/M1/data-1729036800000.json''
                  (body (sample_request (Some ''key'') ''M1'' [''a'', ''b'', ''c''])),
                Respond 201 (Text ''Request accepted successfully''),
                AxiosPost ''https://service.example/callback''
                  \<lparr>payload_filename = ''ssfs-ethan-oct16/M1/data-1729036800000.json'',
                   payload_bucketName = ''ssfs-bucket'',
                   payload_path = ''gs://ssfs-bucket/ssfs-ethan-oct16/M1/data-1729036800000.json''\<rparr>,
                UnhandledRejection AxiosError]\<rparr>)"
  by (simp add: handler_defs checkQuota_defs sample_defs number_eval success_def)


end
